theory Spec2Isabelle
  imports Complex_Main "HOL-Library.Word" "HOL-Library.Sublist" "HOL-Library.Log_Nat"
begin

section \<open>JavaScript values\<close>

text \<open>
  A JavaScript string is a sequence of UTF-16 code units and \<open>.length\<close> counts code
  units, so a string is a list of 16-bit words. \<open>js\<close> embeds an ASCII literal of the
  source.
\<close>

type_synonym jsstring = "16 word list"

definition js :: "string \<Rightarrow> jsstring" where
  "js s = map of_char s"

text \<open>
  The numbers that occur here are counts (a bcrypt cost, a length) or \<open>NaN\<close>; every
  comparison with \<open>NaN\<close> is false.
\<close>

datatype number = Num int | NaN

fun number_lt :: "number \<Rightarrow> number \<Rightarrow> bool" where
  "number_lt (Num a) (Num b) = (a < b)"
| "number_lt _ _ = False"

datatype jsval =
    JUndefined
  | JNull
  | JBoolean bool
  | JNumber number
  | JString jsstring
  | JDate int
  | JObject "(string \<times> jsval) list"

text \<open>What \<open>!v\<close> negates: \<open>undefined\<close>, \<open>null\<close>, \<open>false\<close>, \<open>0\<close>, \<open>NaN\<close> and \<open>""\<close> are falsy.\<close>

fun truthy :: "jsval \<Rightarrow> bool" where
  "truthy JUndefined = False"
| "truthy JNull = False"
| "truthy (JBoolean b) = b"
| "truthy (JNumber (Num n)) = (n \<noteq> 0)"
| "truthy (JNumber NaN) = False"
| "truthy (JString s) = (s \<noteq> [])"
| "truthy (JDate _) = True"
| "truthy (JObject _) = True"

fun typeof :: "jsval \<Rightarrow> string" where
  "typeof JUndefined = ''undefined''"
| "typeof JNull = ''object''"
| "typeof (JBoolean _) = ''boolean''"
| "typeof (JNumber _) = ''number''"
| "typeof (JString _) = ''string''"
| "typeof (JDate _) = ''object''"
| "typeof (JObject _) = ''object''"

text \<open>The code units of a value already known to be a string; \<open>.length\<close> of it.\<close>

fun string_of :: "jsval \<Rightarrow> jsstring" where
  "string_of (JString s) = s"
| "string_of _ = []"

definition str_length :: "jsval \<Rightarrow> nat" where
  "str_length v = length (string_of v)"

subsection \<open>Thrown values, \<open>try\<close>/\<open>catch\<close>\<close>

text \<open>
  Anything can be thrown. \<open>Error\<close> and its subclasses \<open>TypeError\<close> and \<open>RangeError\<close>
  carry a message; \<open>NonError\<close> is a thrown value that is not an \<open>Error\<close> instance. A
  computation that may throw returns \<open>thrown + 'a\<close>; an awaited promise that rejects is
  a throw.
\<close>

datatype thrown =
    Error jsstring
  | TypeError jsstring
  | RangeError jsstring
  | NonError jsval

fun instanceof_Error :: "thrown \<Rightarrow> bool" where
  "instanceof_Error (Error _) = True"
| "instanceof_Error (TypeError _) = True"
| "instanceof_Error (RangeError _) = True"
| "instanceof_Error (NonError _) = False"

fun message :: "thrown \<Rightarrow> jsstring" where
  "message (Error m) = m"
| "message (TypeError m) = m"
| "message (RangeError m) = m"
| "message (NonError _) = []"

definition try_catch :: "(thrown + 'a) \<Rightarrow> (thrown \<Rightarrow> thrown + 'a) \<Rightarrow> thrown + 'a" where
  "try_catch body handler = (case body of Inl error \<Rightarrow> handler error | Inr v \<Rightarrow> Inr v)"

definition and_then :: "(thrown + 'a) \<Rightarrow> ('a \<Rightarrow> thrown + 'b) \<Rightarrow> thrown + 'b" where
  "and_then m f = (case m of Inl error \<Rightarrow> Inl error | Inr v \<Rightarrow> f v)"

section \<open>Password utilities (\<open>src/lib/password.ts\<close>)\<close>

text \<open>
  The three functions of the \<open>bcryptjs\<close> library that the module calls. The library is
  not part of the repository (its tests replace it by mocks), so it is a parameter:
  each call either throws or returns. \<open>bcrypt.hash\<close> draws a fresh salt on every call;
  a value of this record fixes the outcome of each call it is asked for.
\<close>

record bcryptjs =
  bcrypt_hash :: "jsstring \<Rightarrow> int \<Rightarrow> thrown + jsstring"
  bcrypt_compare :: "jsstring \<Rightarrow> jsstring \<Rightarrow> thrown + bool"
  bcrypt_getRounds :: "jsstring \<Rightarrow> thrown + number"

definition SALT_ROUNDS :: int where
  "SALT_ROUNDS = 12"

definition catch_hashing :: "thrown \<Rightarrow> thrown + jsstring" where
  "catch_hashing error =
     Inl (Error (js ''Password hashing failed: '' @
       (if instanceof_Error error then message error else js ''Unknown error'')))"

definition hashPassword :: "bcryptjs \<Rightarrow> jsval \<Rightarrow> thrown + jsstring" where
  "hashPassword bcrypt password =
     try_catch
       (if \<not> truthy password \<or> typeof password \<noteq> ''string'' then
          Inl (Error (js ''Password must be a non-empty string''))
        else if str_length password < 8 then
          Inl (Error (js ''Password must be at least 8 characters long''))
        else if str_length password > 72 then
          Inl (Error (js ''Password must be 72 characters or less''))
        else
          and_then (bcrypt_hash bcrypt (string_of password) SALT_ROUNDS)
            (\<lambda>hashedPassword. Inr hashedPassword))
       catch_hashing"

definition verifyPassword :: "bcryptjs \<Rightarrow> jsval \<Rightarrow> jsval \<Rightarrow> thrown + bool" where
  "verifyPassword bcrypt password hashedPassword =
     try_catch
       (if \<not> truthy password \<or> typeof password \<noteq> ''string'' then
          Inl (Error (js ''Password must be a non-empty string''))
        else if \<not> truthy hashedPassword \<or> typeof hashedPassword \<noteq> ''string'' then
          Inl (Error (js ''Hashed password must be a non-empty string''))
        else
          and_then (bcrypt_compare bcrypt (string_of password) (string_of hashedPassword))
            (\<lambda>isValid. Inr isValid))
       (\<lambda>error. Inl (Error (js ''Password verification failed'')))"

definition shouldRehashPassword :: "bcryptjs \<Rightarrow> jsstring \<Rightarrow> thrown + bool" where
  "shouldRehashPassword bcrypt hashedPassword =
     try_catch
       (and_then (bcrypt_getRounds bcrypt hashedPassword)
          (\<lambda>rounds. Inr (number_lt rounds (Num SALT_ROUNDS))))
       (\<lambda>error. Inr True)"

subsection \<open>\<open>generateSecurePassword\<close>\<close>

text \<open>
  The arithmetic of the function is on IEEE 754 doubles. A double in \<open>[0, 1)\<close>, which is
  what \<open>Math.random\<close> returns, is \<open>m / 2^k\<close> with a significand \<open>m < 2^53\<close> and
  \<open>53 \<le> k \<le> 1074\<close>, and every such quotient is one; the pair \<open>(m, k)\<close> stands for it.
  In general a pair \<open>(a, k)\<close> stands for the dyadic number \<open>a / 2^k\<close>.
\<close>

type_synonym double = "nat \<times> nat"

definition unit_double :: "double \<Rightarrow> bool" where
  "unit_double d = (fst d < 2 ^ 53 \<and> 53 \<le> snd d \<and> snd d \<le> 1074)"

text \<open>
  Rounding a natural number to 53 significant bits, to nearest and ties to even: \<open>s\<close>
  is the number of low bits that do not fit, \<open>r\<close> their value and \<open>q\<close> the bits kept.
\<close>

definition round53 :: "nat \<Rightarrow> nat" where
  "round53 p =
     (let s = floorlog 2 p - 53; q = p div 2 ^ s; r = p mod 2 ^ s in
      if s = 0 then p
      else if r > 2 ^ (s - 1) \<or> (r = 2 ^ (s - 1) \<and> odd q) then (q + 1) * 2 ^ s
      else q * 2 ^ s)"

text \<open>
  \<open>d * n\<close> for a double \<open>d\<close> in \<open>[0, 1)\<close> and a small integer \<open>n\<close>: the exact product
  \<open>m * n / 2^k\<close> rounded to the nearest double, which rounds its numerator to 53
  bits (the exponent \<open>-k\<close> is in range, and the product is far from overflow).
  \<open>Math.floor\<close> of such a value is exact.
\<close>

definition double_times :: "double \<Rightarrow> nat \<Rightarrow> double" where
  "double_times d n = (round53 (fst d * n), snd d)"

definition Math_floor :: "double \<Rightarrow> nat" where
  "Math_floor d = fst d div 2 ^ snd d"

definition charset :: jsstring where
  "charset = js ''ABCDEFGHIJKLMNOPQRSTUVWXYZabcdefghijklmnopqrstuvwxyz0123456789!@#$%^&*''"

text \<open>\<open>charset[randomIndex]\<close>: outside the string the read gives \<open>undefined\<close>, which
  \<open>+=\<close> appends as the text \<open>undefined\<close>.\<close>

definition charset_at :: "nat \<Rightarrow> jsstring" where
  "charset_at randomIndex =
     (if randomIndex < length charset then [charset ! randomIndex] else js ''undefined'')"

text \<open>
  The loop \<open>for (let i = 0; i < length; i++)\<close>. \<open>Math.random\<close> is the sequence of its
  results: \<open>random calls\<close> is what the call number \<open>calls\<close> returns. The counter \<open>i\<close>
  is a double, so \<open>i++\<close> is \<open>i + 1\<close> rounded. A string has at most \<open>max_length\<close>
  code units, a limit of the engine that ECMAScript bounds by \<open>2^53 - 1\<close>; a
  concatenation beyond it throws a \<open>RangeError\<close>.
\<close>

function generate_loop ::
  "nat \<Rightarrow> (nat \<Rightarrow> double) \<Rightarrow> number \<Rightarrow> nat \<Rightarrow> nat \<Rightarrow> jsstring \<Rightarrow> thrown + jsstring" where
  "generate_loop max_length random len i calls password =
     (if number_lt (Num (int i)) len then
        (let randomIndex = Math_floor (double_times (random calls) (length charset));
             appended = password @ charset_at randomIndex
         in if length appended > max_length then
              Inl (RangeError (js ''Invalid string length''))
            else generate_loop max_length random len (round53 (i + 1)) (Suc calls) appended)
      else Inr password)"
  by pat_completeness auto
termination
proof (relation "measure (\<lambda>(max_length, random, len, i, calls, password).
                   max_length - length password)")
  show "wf (measure (\<lambda>(max_length, random, len, i, calls, password).
              max_length - length password))"
    by simp
next
  fix max_length :: nat and random :: "nat \<Rightarrow> double" and len :: number and i calls :: nat
    and password :: jsstring and randomIndex :: nat and appended :: jsstring
  assume "randomIndex = Math_floor (double_times (random calls) (length charset))"
    and a: "appended = password @ charset_at randomIndex"
    and l: "\<not> max_length < length appended"
  have "charset_at randomIndex \<noteq> []"
    by (simp add: charset_at_def js_def)
  then have "length password < length appended"
    using a by (cases "charset_at randomIndex") simp_all
  then show "((max_length, random, len, round53 (i + 1), Suc calls, appended),
         (max_length, random, len, i, calls, password))
        \<in> measure (\<lambda>(max_length, random, len, i, calls, password).
              max_length - length password)"
    using l by simp
qed

text \<open>The parameter \<open>length: number = 16\<close>: \<open>None\<close> is the call without an argument.\<close>

definition generateSecurePassword ::
  "nat \<Rightarrow> (nat \<Rightarrow> double) \<Rightarrow> number option \<Rightarrow> thrown + jsstring" where
  "generateSecurePassword max_length random len =
     generate_loop max_length random (case len of None \<Rightarrow> Num 16 | Some n \<Rightarrow> n) 0 0 []"

subsection \<open>\<open>validatePasswordStrength\<close>\<close>

record PasswordValidation =
  isValid :: bool
  errors :: "jsstring list"

text \<open>The character classes of the four regular expressions; \<open>regex.test\<close> succeeds
  when some code unit of the string is in the class.\<close>

definition upper_class :: "16 word \<Rightarrow> bool" where
  "upper_class c = (0x41 \<le> c \<and> c \<le> 0x5A)"

definition lower_class :: "16 word \<Rightarrow> bool" where
  "lower_class c = (0x61 \<le> c \<and> c \<le> 0x7A)"

definition digit_class :: "16 word \<Rightarrow> bool" where
  "digit_class c = (0x30 \<le> c \<and> c \<le> 0x39)"

text \<open>The class \<open>[!@#$%^&*()_+\-=\[\]{};':"\\|,.<>\/?]\<close>; the apostrophe, the double
  quote and the backslash are given by their code units.\<close>

definition special_chars :: jsstring where
  "special_chars =
     js ''!@#$%^&*()_+-=[]{};'' @ [0x27] @ js '':'' @ [0x22, 0x5C] @ js ''|,.<>/?''"

definition special_class :: "16 word \<Rightarrow> bool" where
  "special_class c = (c \<in> set special_chars)"

definition regex_test :: "(16 word \<Rightarrow> bool) \<Rightarrow> jsstring \<Rightarrow> bool" where
  "regex_test cls s = list_ex cls s"

definition push_if :: "bool \<Rightarrow> jsstring \<Rightarrow> jsstring list \<Rightarrow> jsstring list" where
  "push_if violated msg errs = (if violated then errs @ [msg] else errs)"

definition validatePasswordStrength :: "jsstring \<Rightarrow> PasswordValidation" where
  "validatePasswordStrength password =
     (let errs0 = [];
          errs1 = push_if (length password < 8)
                    (js ''Password must be at least 8 characters long'') errs0;
          errs2 = push_if (length password > 72)
                    (js ''Password must be 72 characters or less'') errs1;
          errs3 = push_if (\<not> regex_test upper_class password)
                    (js ''Password must contain at least one uppercase letter'') errs2;
          errs4 = push_if (\<not> regex_test lower_class password)
                    (js ''Password must contain at least one lowercase letter'') errs3;
          errs5 = push_if (\<not> regex_test digit_class password)
                    (js ''Password must contain at least one number'') errs4;
          errs6 = push_if (\<not> regex_test special_class password)
                    (js ''Password must contain at least one special character'') errs5
      in \<lparr> isValid = (length errs6 = 0), errors = errs6 \<rparr>)"

section \<open>The library's \<open>getRounds\<close>\<close>

text \<open>
  \<open>bcrypt.getRounds\<close> as the bcryptjs package implements it; the package is a
  dependency, not part of the repository, whose tests replace it by a mock:
  \<^verbatim>\<open>
  bcrypt.getRounds = function(hash) {
      if (typeof hash !== "string")
          throw Error("Illegal arguments: "+(typeof hash));
      return parseInt(hash.split("$")[2], 10);
  };
  \<close>
  The argument here is always a string, so the \<open>throw\<close> is not reached.
\<close>

text \<open>\<open>hash.split("$")\<close>: the pieces between the dollar signs, at least one.\<close>

fun split_dollar :: "jsstring \<Rightarrow> jsstring list" where
  "split_dollar [] = [[]]"
| "split_dollar (c # cs) =
     (if c = 0x24 then [] # split_dollar cs
      else (case split_dollar cs of [] \<Rightarrow> [[c]] | x # xs \<Rightarrow> (c # x) # xs))"

text \<open>\<open>xs[i]\<close> on an array: \<open>None\<close> is \<open>undefined\<close>.\<close>

definition array_at :: "'a list \<Rightarrow> nat \<Rightarrow> 'a option" where
  "array_at xs i = (if i < length xs then Some (xs ! i) else None)"

text \<open>White space and line terminators, which \<open>parseInt\<close> skips at the front.\<close>

definition StrWhiteSpaceChar :: "16 word \<Rightarrow> bool" where
  "StrWhiteSpaceChar c =
     (c \<in> {0x9, 0xA, 0xB, 0xC, 0xD, 0x20, 0xA0, 0x1680, 0x2028, 0x2029, 0x202F, 0x205F,
            0x3000, 0xFEFF} \<or> (0x2000 \<le> c \<and> c \<le> 0x200A))"

definition digits_value :: "jsstring \<Rightarrow> int" where
  "digits_value z = foldl (\<lambda>a c. 10 * a + (uint c - 48)) 0 z"

text \<open>
  \<open>parseInt(arg, 10)\<close>: the argument is converted to a string (\<open>undefined\<close> to the text
  \<open>undefined\<close>), leading white space and one sign are dropped, and the longest prefix
  of decimal digits is read; without a digit the result is \<open>NaN\<close>. An integer below
  \<open>2^53\<close> in absolute value is a Number as it is (\<open>-0\<close> is given as \<open>0\<close>); for a larger
  one ECMAScript leaves the digits after the twentieth to the implementation, whose
  result is the parameter \<open>approx\<close>.
\<close>

definition parseInt10 :: "(int \<Rightarrow> number) \<Rightarrow> jsstring option \<Rightarrow> number" where
  "parseInt10 approx arg =
     (let inputString = (case arg of None \<Rightarrow> js ''undefined'' | Some s \<Rightarrow> s);
          S = dropWhile StrWhiteSpaceChar inputString;
          sign = (if S \<noteq> [] \<and> hd S = 0x2D then - 1 else 1);
          S' = (if S \<noteq> [] \<and> (hd S = 0x2B \<or> hd S = 0x2D) then tl S else S);
          Z = takeWhile digit_class S';
          mathInt = sign * digits_value Z
      in if Z = [] then NaN
         else if \<bar>mathInt\<bar> < 2 ^ 53 then Num mathInt
         else approx mathInt)"

definition bcryptjs_getRounds :: "(int \<Rightarrow> number) \<Rightarrow> jsstring \<Rightarrow> thrown + number" where
  "bcryptjs_getRounds approx hash = Inr (parseInt10 approx (array_at (split_dollar hash) 2))"

section \<open>Objects and property reads\<close>

text \<open>
  \<open>o.k\<close> throws a \<open>TypeError\<close> when \<open>o\<close> is \<open>null\<close> or \<open>undefined\<close>; on an object it
  gives the property or \<open>undefined\<close>; the other values have none of the properties
  read below. \<open>o?.k\<close> gives \<open>undefined\<close> instead of throwing.
\<close>

fun get_property :: "jsval \<Rightarrow> string \<Rightarrow> thrown + jsval" where
  "get_property JUndefined k = Inl (TypeError (js ''Cannot read properties of undefined''))"
| "get_property JNull k = Inl (TypeError (js ''Cannot read properties of null''))"
| "get_property (JObject props) k =
     Inr (case map_of props k of None \<Rightarrow> JUndefined | Some v \<Rightarrow> v)"
| "get_property _ k = Inr JUndefined"

definition get_optional :: "jsval \<Rightarrow> string \<Rightarrow> jsval" where
  "get_optional v k = (case get_property v k of Inl _ \<Rightarrow> JUndefined | Inr x \<Rightarrow> x)"

text \<open>\<open>a && b\<close> on booleans: \<open>b\<close> is not evaluated when \<open>a\<close> is false.\<close>

definition and_also :: "(thrown + bool) \<Rightarrow> (thrown + bool) \<Rightarrow> thrown + bool" where
  "and_also a b = (case a of Inl error \<Rightarrow> Inl error | Inr x \<Rightarrow> if x then b else Inr False)"

section \<open>Type guards (\<open>src/types/auth.ts\<close>)\<close>

definition isAuthenticated :: "jsval \<Rightarrow> thrown + bool" where
  "isAuthenticated session =
     and_also
       (and_also (Inr (session \<noteq> JNull)) (Inr (session \<noteq> JUndefined)))
       (and_then (get_property session ''user'') (\<lambda>user. Inr (user \<noteq> JUndefined)))"

section \<open>The credentials provider (\<open>src/lib/auth.ts\<close>)\<close>

text \<open>
  What \<open>authorize\<close> calls besides the password utilities: the two Prisma queries, each
  of which throws or returns (\<open>findUnique\<close> returns the selected row as an object, or
  \<open>null\<close>), and \<open>String.prototype.toLowerCase\<close>.
\<close>

record runtime =
  bcrypt :: bcryptjs
  user_findUnique :: "jsstring \<Rightarrow> thrown + jsval"
  user_update :: "jsval \<Rightarrow> jsstring \<Rightarrow> thrown + unit"
  toLowerCase :: "jsstring \<Rightarrow> jsstring"

text \<open>The console lines and the database write, in the order they happen.\<close>

datatype event =
    Log_MissingCredentials
  | Log_NonExistentUser jsval
  | Log_OAuthOnlyUser jsval
  | Log_InvalidPassword jsval
  | Log_Rehashing jsval
  | Update_Password jsval jsstring
  | Error_RehashFailed thrown
  | Error_Authentication thrown

type_synonym 'a io = "event list \<times> (thrown + 'a)"

definition io_return :: "'a \<Rightarrow> 'a io" where
  "io_return v = ([], Inr v)"

definition emit :: "event \<Rightarrow> unit io" where
  "emit ev = ([ev], Inr ())"

definition lift :: "thrown + 'a \<Rightarrow> 'a io" where
  "lift r = ([], r)"

definition io_bind :: "'a io \<Rightarrow> ('a \<Rightarrow> 'b io) \<Rightarrow> 'b io" where
  "io_bind m f =
     (case snd m of
        Inl error \<Rightarrow> (fst m, Inl error)
      | Inr v \<Rightarrow> (fst m @ fst (f v), snd (f v)))"

definition io_try_catch :: "'a io \<Rightarrow> (thrown \<Rightarrow> 'a io) \<Rightarrow> 'a io" where
  "io_try_catch body handler =
     (case snd body of
        Inl error \<Rightarrow> (fst body @ fst (handler error), snd (handler error))
      | Inr v \<Rightarrow> (fst body, Inr v))"

text \<open>\<open>v.toLowerCase()\<close>: only a string has the method.\<close>

definition call_toLowerCase :: "runtime \<Rightarrow> jsval \<Rightarrow> thrown + jsstring" where
  "call_toLowerCase rt v =
     (case v of
        JString s \<Rightarrow> Inr (toLowerCase rt s)
      | _ \<Rightarrow> Inl (TypeError (js ''toLowerCase is not a function'')))"

text \<open>The inner \<open>try\<close>/\<open>catch\<close> around \<open>hashPassword\<close> and \<open>prisma.user.update\<close>.\<close>

definition rehash :: "runtime \<Rightarrow> jsval \<Rightarrow> jsval \<Rightarrow> unit io" where
  "rehash rt credentials user =
     io_try_catch
       (io_bind (lift (get_property credentials ''password'')) (\<lambda>password.
        io_bind (lift (hashPassword (bcrypt rt) password)) (\<lambda>newHashedPassword.
        io_bind (lift (get_property user ''id'')) (\<lambda>user_id.
        io_bind (emit (Update_Password user_id newHashedPassword)) (\<lambda>_.
        lift (user_update rt user_id newHashedPassword))))))
       (\<lambda>error. emit (Error_RehashFailed error))"

text \<open>The object literal that \<open>authorize\<close> returns.\<close>

definition returned_user :: "jsval \<Rightarrow> jsval io" where
  "returned_user user =
     io_bind (lift (get_property user ''id'')) (\<lambda>v_id.
     io_bind (lift (get_property user ''email'')) (\<lambda>v_email.
     io_bind (lift (get_property user ''name'')) (\<lambda>v_name.
     io_bind (lift (get_property user ''role'')) (\<lambda>v_role.
     io_bind (lift (get_property user ''emailVerified'')) (\<lambda>v_emailVerified.
     io_bind (lift (get_property user ''image'')) (\<lambda>v_image.
     io_return (JObject
       [(''id'', v_id), (''email'', v_email), (''name'', v_name), (''role'', v_role),
        (''emailVerified'', v_emailVerified), (''image'', v_image)])))))))"

definition authorize_body :: "runtime \<Rightarrow> jsval \<Rightarrow> jsval io" where
  "authorize_body rt credentials =
     (if \<not> truthy (get_optional credentials ''email'')
         \<or> \<not> truthy (get_optional credentials ''password'') then
        io_bind (emit Log_MissingCredentials) (\<lambda>_. io_return JNull)
      else
        io_bind (lift (get_property credentials ''email'')) (\<lambda>email.
        io_bind (lift (call_toLowerCase rt email)) (\<lambda>normalized.
        io_bind (lift (user_findUnique rt normalized)) (\<lambda>user.
          if \<not> truthy user then
            io_bind (emit (Log_NonExistentUser email)) (\<lambda>_. io_return JNull)
          else
            io_bind (lift (get_property user ''password'')) (\<lambda>user_password.
              if \<not> truthy user_password then
                io_bind (emit (Log_OAuthOnlyUser email)) (\<lambda>_. io_return JNull)
              else
                io_bind (lift (get_property credentials ''password'')) (\<lambda>password.
                io_bind (lift (verifyPassword (bcrypt rt) password user_password))
                  (\<lambda>isPasswordValid.
                  if \<not> isPasswordValid then
                    io_bind (emit (Log_InvalidPassword email)) (\<lambda>_. io_return JNull)
                  else
                    io_bind (lift (shouldRehashPassword (bcrypt rt) (string_of user_password)))
                      (\<lambda>should.
                    io_bind (if should then
                               io_bind (emit (Log_Rehashing email))
                                 (\<lambda>_. rehash rt credentials user)
                             else io_return ()) (\<lambda>_.
                    returned_user user)))))))))"

definition authorize :: "runtime \<Rightarrow> jsval \<Rightarrow> jsval io" where
  "authorize rt credentials =
     io_try_catch (authorize_body rt credentials)
       (\<lambda>error. io_bind (emit (Error_Authentication error)) (\<lambda>_. io_return JNull))"

section \<open>Vocabulary of the specification\<close>

subsection \<open>Password utilities\<close>

text \<open>
  The three messages of the input checks of \<open>hashPassword\<close>. The module has no error
  classes; its tests recognise a validation failure by \<open>toThrow(message)\<close>, which
  holds when the message of the thrown \<open>Error\<close> contains the expected text.
\<close>

definition validation_messages :: "jsstring list" where
  "validation_messages =
     [js ''Password must be a non-empty string'',
      js ''Password must be at least 8 characters long'',
      js ''Password must be 72 characters or less'']"

definition is_ValidationError :: "thrown \<Rightarrow> bool" where
  "is_ValidationError e =
     (instanceof_Error e \<and> (\<exists>m \<in> set validation_messages. sublist m (message e)))"

text \<open>A plaintext that is missing, not a string, empty, shorter than 8 or longer
  than 72.\<close>

definition invalid_plaintext :: "jsval \<Rightarrow> bool" where
  "invalid_plaintext p =
     (p = JUndefined \<or> p = JNull \<or> typeof p \<noteq> ''string'' \<or> string_of p = []
      \<or> str_length p < 8 \<or> str_length p > 72)"

text \<open>The six rules, each contributing its own message or nothing.\<close>

definition rule_errors :: "jsstring \<Rightarrow> jsstring list" where
  "rule_errors password =
     (if length password \<ge> 8 then []
      else [js ''Password must be at least 8 characters long''])
     @ (if length password \<le> 72 then []
        else [js ''Password must be 72 characters or less''])
     @ (if list_ex upper_class password then []
        else [js ''Password must contain at least one uppercase letter''])
     @ (if list_ex lower_class password then []
        else [js ''Password must contain at least one lowercase letter''])
     @ (if list_ex digit_class password then []
        else [js ''Password must contain at least one number''])
     @ (if list_ex special_class password then []
        else [js ''Password must contain at least one special character''])"

text \<open>What the wrappers need of the library for a round trip: the digest that
  \<open>bcrypt.hash\<close> returns at cost 12 is not empty and \<open>bcrypt.compare\<close> accepts it for
  the same plaintext.\<close>

definition bcrypt_contract :: "bcryptjs \<Rightarrow> bool" where
  "bcrypt_contract b =
     (\<forall>password digest. bcrypt_hash b password 12 = Inr digest \<longrightarrow>
        digest \<noteq> [] \<and> bcrypt_compare b password digest = Inr True)"

subsection \<open>A login attempt\<close>

definition public_fields :: "string list" where
  "public_fields = [''id'', ''email'', ''name'', ''role'', ''emailVerified'', ''image'']"

definition identity_of :: "jsval \<Rightarrow> jsval" where
  "identity_of user = JObject (map (\<lambda>k. (k, get_optional user k)) public_fields)"

definition missing_credentials :: "jsval \<Rightarrow> bool" where
  "missing_credentials credentials =
     (\<not> truthy (get_optional credentials ''email'')
      \<or> \<not> truthy (get_optional credentials ''password''))"

text \<open>The lookup by the normalised email, and the verification of the submitted
  password against the stored one.\<close>

definition found_user :: "runtime \<Rightarrow> jsval \<Rightarrow> thrown + jsval" where
  "found_user rt credentials =
     and_then (call_toLowerCase rt (get_optional credentials ''email'')) (user_findUnique rt)"

definition verified :: "runtime \<Rightarrow> jsval \<Rightarrow> jsval \<Rightarrow> thrown + bool" where
  "verified rt credentials user =
     verifyPassword (bcrypt rt) (get_optional credentials ''password'')
       (get_optional user ''password'')"

text \<open>The failure modes: credentials missing; the lookup throws; no user; a user
  without a stored password; the verification throws; a wrong password.\<close>

definition login_fails :: "runtime \<Rightarrow> jsval \<Rightarrow> bool" where
  "login_fails rt credentials =
     (missing_credentials credentials
      \<or> (case found_user rt credentials of
            Inl error \<Rightarrow> True
          | Inr user \<Rightarrow>
              \<not> truthy user
              \<or> \<not> truthy (get_optional user ''password'')
              \<or> (case verified rt credentials user of
                    Inl error \<Rightarrow> True
                  | Inr isPasswordValid \<Rightarrow> \<not> isPasswordValid)))"

text \<open>The rehash step fails with \<open>error\<close>: thrown by hashing the plaintext again, or
  by persisting the new digest.\<close>

definition rehash_fails :: "runtime \<Rightarrow> jsval \<Rightarrow> jsval \<Rightarrow> thrown \<Rightarrow> bool" where
  "rehash_fails rt credentials user error =
     (case hashPassword (bcrypt rt) (get_optional credentials ''password'') of
        Inl e \<Rightarrow> e = error
      | Inr newHashedPassword \<Rightarrow>
          user_update rt (get_optional user ''id'') newHashedPassword = Inl error)"

subsection \<open>Sessions\<close>

text \<open>A value is present when it is neither \<open>null\<close> nor \<open>undefined\<close>.\<close>

definition present :: "jsval \<Rightarrow> bool" where
  "present v = (v \<noteq> JNull \<and> v \<noteq> JUndefined)"

section \<open>Concrete collaborators\<close>

definition ascii_toLowerCase :: "jsstring \<Rightarrow> jsstring" where
  "ascii_toLowerCase s = map (\<lambda>c. if upper_class c then c + 0x20 else c) s"

text \<open>A stand-in for the library, in the manner of the mocks of the test suite: the
  digest is a seven-character prefix naming the cost, followed by the plaintext, and
  \<open>getRounds\<close> throws on a digest without such a prefix (which the library itself does
  not do, see \<open>bcryptjs_getRounds\<close>).\<close>

definition mock_bcrypt :: bcryptjs where
  "mock_bcrypt =
     \<lparr> bcrypt_hash = (\<lambda>password rounds. Inr (js ''$2a$12$'' @ password)),
       bcrypt_compare = (\<lambda>password hashed.
          if hashed = js ''corrupt'' then Inl (Error (js ''Specific internal error''))
          else Inr (drop 7 hashed = password)),
       bcrypt_getRounds = (\<lambda>hashed.
          if take 7 hashed = js ''$2a$10$'' then Inr (Num 10)
          else if take 7 hashed = js ''$2a$12$'' then Inr (Num 12)
          else Inl (Error (js ''Invalid hash format''))) \<rparr>"

text \<open>A user table with one tenant whose password was stored at cost 10, and a store
  that refuses every write.\<close>

definition tenant_row :: jsval where
  "tenant_row = JObject
     [(''id'', JString (js ''1'')),
      (''email'', JString (js ''tenant@test.com'')),
      (''name'', JString (js ''Test Tenant'')),
      (''password'', JString (js ''$2a$10$Secret123!'')),
      (''role'', JString (js ''TENANT'')),
      (''emailVerified'', JNull),
      (''image'', JNull)]"

definition mock_runtime :: runtime where
  "mock_runtime =
     \<lparr> bcrypt = mock_bcrypt,
       user_findUnique = (\<lambda>email.
          if email = js ''tenant@test.com'' then Inr tenant_row else Inr JNull),
       user_update = (\<lambda>user_id digest. Inl (Error (js ''Database unavailable''))),
       toLowerCase = ascii_toLowerCase \<rparr>"

definition failing_runtime :: runtime where
  "failing_runtime =
     mock_runtime \<lparr> user_findUnique := (\<lambda>email. Inl (Error (js ''Connection refused''))) \<rparr>"

definition login :: "string \<Rightarrow> string \<Rightarrow> jsval" where
  "login email password =
     JObject [(''email'', JString (js email)), (''password'', JString (js password))]"

text \<open>The double nearest to one seventh, \<open>0.14285714285714285\<close>, as every result of
  \<open>Math.random\<close>.\<close>

definition one_seventh :: double where
  "one_seventh = (5146971002709138, 55)"

definition sample_random :: "nat \<Rightarrow> double" where
  "sample_random calls = one_seventh"

section \<open>Properties of the password utilities\<close>

subsection \<open>\<open>verifyPassword\<close>\<close>

lemma verifyPassword_cases:
  "verifyPassword b p h =
     (if truthy p \<and> typeof p = ''string'' \<and> truthy h \<and> typeof h = ''string'' then
        (case bcrypt_compare b (string_of p) (string_of h) of
           Inl e \<Rightarrow> Inl (Error (js ''Password verification failed''))
         | Inr v \<Rightarrow> Inr v)
      else Inl (Error (js ''Password verification failed'')))"
  by (simp add: verifyPassword_def try_catch_def and_then_def split: sum.splits)

lemma verifyPassword_Inr_truthy:
  "verifyPassword b p h = Inr v \<Longrightarrow> truthy p \<and> truthy h"
  by (auto simp add: verifyPassword_def try_catch_def split: if_splits)

text \<open>
  C4: whatever \<open>verifyPassword\<close> throws is the one \<open>Error\<close> with the message
  \<open>Password verification failed\<close>, and it throws exactly that for an empty or
  non-string plaintext, an empty or non-string digest, and an error raised by
  \<open>bcrypt.compare\<close>.
\<close>

theorem verifyPassword_generic_error:
  "(\<forall>e. verifyPassword b p h = Inl e \<longrightarrow> e = Error (js ''Password verification failed''))
   \<and> ((\<not> truthy p \<or> typeof p \<noteq> ''string'' \<or> \<not> truthy h \<or> typeof h \<noteq> ''string''
        \<or> (\<exists>err. bcrypt_compare b (string_of p) (string_of h) = Inl err))
       \<longrightarrow> verifyPassword b p h = Inl (Error (js ''Password verification failed'')))"
  by (auto simp add: verifyPassword_cases split: sum.splits)

theorem verifyPassword_generic_error_witness:
  "verifyPassword mock_bcrypt (JString []) (JString (js ''$2a$12$x''))
     = Inl (Error (js ''Password verification failed''))
   \<and> verifyPassword mock_bcrypt (JString (js ''TestPassword123!'')) JNull
     = Inl (Error (js ''Password verification failed''))
   \<and> verifyPassword mock_bcrypt (JString (js ''TestPassword123!'')) (JString (js ''corrupt''))
     = Inl (Error (js ''Password verification failed''))"
proof -
  have a: "\<not> truthy (JString [])" by simp
  have b: "\<not> truthy JNull" by simp
  have c: "\<exists>err. bcrypt_compare mock_bcrypt (string_of (JString (js ''TestPassword123!'')))
             (string_of (JString (js ''corrupt''))) = Inl err"
    by (simp add: mock_bcrypt_def)
  show ?thesis
    using verifyPassword_generic_error
            [of mock_bcrypt "JString []" "JString (js ''$2a$12$x'')", THEN conjunct2] a
          verifyPassword_generic_error
            [of mock_bcrypt "JString (js ''TestPassword123!'')" JNull, THEN conjunct2] b
          verifyPassword_generic_error
            [of mock_bcrypt "JString (js ''TestPassword123!'')" "JString (js ''corrupt'')",
             THEN conjunct2] c
    by blast
qed

subsection \<open>\<open>hashPassword\<close>\<close>

lemma invalid_plaintext_iff:
  "invalid_plaintext p =
     (\<not> truthy p \<or> typeof p \<noteq> ''string'' \<or> str_length p < 8 \<or> str_length p > 72)"
  by (cases p) (auto simp add: invalid_plaintext_def str_length_def)

lemma hashPassword_invalid:
  assumes "invalid_plaintext p"
  shows "\<exists>m \<in> set validation_messages.
           hashPassword b p = Inl (Error (js ''Password hashing failed: '' @ m))"
proof -
  consider (empty) "\<not> truthy p \<or> typeof p \<noteq> ''string''"
    | (short) "truthy p" "typeof p = ''string''" "str_length p < 8"
    | (long) "truthy p" "typeof p = ''string''" "\<not> str_length p < 8" "str_length p > 72"
    using assms unfolding invalid_plaintext_iff by blast
  then show ?thesis
  proof cases
    case empty
    then have "hashPassword b p =
        Inl (Error (js ''Password hashing failed: '' @ js ''Password must be a non-empty string''))"
      by (simp add: hashPassword_def try_catch_def catch_hashing_def)
    then show ?thesis by (simp add: validation_messages_def)
  next
    case short
    then have "hashPassword b p =
        Inl (Error (js ''Password hashing failed: ''
                    @ js ''Password must be at least 8 characters long''))"
      by (simp add: hashPassword_def try_catch_def catch_hashing_def)
    then show ?thesis by (simp add: validation_messages_def)
  next
    case long
    then have "hashPassword b p =
        Inl (Error (js ''Password hashing failed: ''
                    @ js ''Password must be 72 characters or less''))"
      by (simp add: hashPassword_def try_catch_def catch_hashing_def)
    then show ?thesis by (simp add: validation_messages_def)
  qed
qed

lemma hashPassword_valid:
  assumes "\<not> invalid_plaintext p"
  shows "hashPassword b p =
     (case bcrypt_hash b (string_of p) 12 of
        Inl error \<Rightarrow> catch_hashing error
      | Inr hashedPassword \<Rightarrow> Inr hashedPassword)"
  using assms unfolding invalid_plaintext_iff
  by (simp add: hashPassword_def try_catch_def and_then_def SALT_ROUNDS_def split: sum.splits)

text \<open>
  C5: when \<open>bcrypt.hash\<close> does not throw, \<open>hashPassword\<close> fails exactly when the
  plaintext is missing, not a string, empty, shorter than 8 or longer than 72 code
  units, the failure is then a validation error, and every other plaintext is hashed;
  72 times \<open>A\<close> is hashed and 73 times \<open>A\<close> is rejected.
\<close>

theorem hashPassword_validation:
  assumes "\<forall>s error. bcrypt_hash b s 12 \<noteq> Inl error"
  shows "((\<exists>e. hashPassword b p = Inl e \<and> is_ValidationError e) = invalid_plaintext p)
       \<and> ((\<exists>e. hashPassword b p = Inl e) = invalid_plaintext p)
       \<and> ((\<exists>digest. hashPassword b p = Inr digest) = (\<not> invalid_plaintext p))
       \<and> (\<exists>digest. hashPassword b (JString (replicate 72 0x41)) = Inr digest)
       \<and> (\<exists>e. hashPassword b (JString (replicate 73 0x41)) = Inl e \<and> is_ValidationError e)"
proof -
  have inv: "\<exists>e. hashPassword b q = Inl e \<and> is_ValidationError e"
    if iq: "invalid_plaintext q" for q
  proof -
    obtain m where m: "m \<in> set validation_messages"
        "hashPassword b q = Inl (Error (js ''Password hashing failed: '' @ m))"
      using hashPassword_invalid[OF iq] by blast
    have "is_ValidationError (Error (js ''Password hashing failed: '' @ m))"
      using m(1) unfolding is_ValidationError_def by auto
    then show ?thesis using m(2) by blast
  qed
  have ok: "\<exists>digest. hashPassword b q = Inr digest"
    if vq: "\<not> invalid_plaintext q" for q
  proof -
    obtain d where "bcrypt_hash b (string_of q) 12 = Inr d"
      using assms by (cases "bcrypt_hash b (string_of q) 12") auto
    then show ?thesis using hashPassword_valid[OF vq, of b] by simp
  qed
  have v72: "\<not> invalid_plaintext (JString (replicate 72 0x41))"
    by (simp add: invalid_plaintext_def str_length_def)
  have i73: "invalid_plaintext (JString (replicate 73 0x41))"
    by (simp add: invalid_plaintext_def str_length_def)
  have 1: "(\<exists>e. hashPassword b p = Inl e \<and> is_ValidationError e) = invalid_plaintext p"
    using inv[of p] ok[of p] by (cases "invalid_plaintext p") auto
  have 2: "(\<exists>e. hashPassword b p = Inl e) = invalid_plaintext p"
    using inv[of p] ok[of p] by (cases "invalid_plaintext p") auto
  have 3: "(\<exists>digest. hashPassword b p = Inr digest) = (\<not> invalid_plaintext p)"
    using inv[of p] ok[of p] by (cases "invalid_plaintext p") auto
  show ?thesis using 1 2 3 ok[OF v72] inv[OF i73] by blast
qed

theorem hashPassword_validation_witness:
  "hashPassword mock_bcrypt (JString (js ''Pass123!'')) = Inr (js ''$2a$12$Pass123!'')
   \<and> (\<exists>e. hashPassword mock_bcrypt (JString (js ''short'')) = Inl e \<and> is_ValidationError e)"
proof -
  have h: "\<forall>s error. bcrypt_hash mock_bcrypt s 12 \<noteq> Inl error"
    by (simp add: mock_bcrypt_def)
  have i: "invalid_plaintext (JString (js ''short''))"
    by (simp add: invalid_plaintext_def str_length_def js_def)
  have "hashPassword mock_bcrypt (JString (js ''Pass123!'')) = Inr (js ''$2a$12$Pass123!'')"
    by (simp add: hashPassword_def try_catch_def and_then_def mock_bcrypt_def
          str_length_def js_def)
  then show ?thesis
    using hashPassword_validation[OF h, of "JString (js ''short'')"] i by blast
qed

subsection \<open>\<open>validatePasswordStrength\<close>\<close>

text \<open>
  C6: the errors of \<open>validatePasswordStrength\<close> are the messages of the violated rules,
  one per rule and each rule judged on its own, in the order of the rules; \<open>isValid\<close>
  holds exactly when there is no error; \<open>weak\<close> gets the four errors for length,
  uppercase, number and special character.
\<close>

theorem validatePasswordStrength_rules:
  "errors (validatePasswordStrength password) = rule_errors password
   \<and> isValid (validatePasswordStrength password)
       = (errors (validatePasswordStrength password) = [])
   \<and> validatePasswordStrength (js ''weak'') =
       \<lparr> isValid = False,
         errors = [js ''Password must be at least 8 characters long'',
                   js ''Password must contain at least one uppercase letter'',
                   js ''Password must contain at least one number'',
                   js ''Password must contain at least one special character''] \<rparr>"
proof -
  have 1: "errors (validatePasswordStrength password) = rule_errors password"
    by (simp add: validatePasswordStrength_def rule_errors_def push_if_def regex_test_def
          Let_def not_less not_le)
  have 2: "isValid (validatePasswordStrength password)
             = (errors (validatePasswordStrength password) = [])"
    by (simp add: validatePasswordStrength_def Let_def)
  have w: "js ''weak'' = [0x77, 0x65, 0x61, 0x6B]" by (simp add: js_def)
  have 3: "validatePasswordStrength (js ''weak'') =
       \<lparr> isValid = False,
         errors = [js ''Password must be at least 8 characters long'',
                   js ''Password must contain at least one uppercase letter'',
                   js ''Password must contain at least one number'',
                   js ''Password must contain at least one special character''] \<rparr>"
    unfolding w
    by (simp add: validatePasswordStrength_def push_if_def regex_test_def Let_def
          upper_class_def lower_class_def digit_class_def special_class_def
          special_chars_def js_def)
  show ?thesis using 1 2 3 by blast
qed

theorem validatePasswordStrength_rules_witness:
  "errors (validatePasswordStrength (js ''StrongP@ssw0rd123!'')) = []
   \<and> isValid (validatePasswordStrength (js ''StrongP@ssw0rd123!''))"
proof -
  have "rule_errors (js ''StrongP@ssw0rd123!'') = []"
    by (simp add: rule_errors_def upper_class_def lower_class_def digit_class_def
          special_class_def special_chars_def js_def)
  then show ?thesis
    using validatePasswordStrength_rules[of "js ''StrongP@ssw0rd123!''"] by simp
qed

subsection \<open>\<open>shouldRehashPassword\<close>\<close>

lemma shouldRehashPassword_returns: "\<exists>v. shouldRehashPassword b h = Inr v"
  by (cases "bcrypt_getRounds b h")
     (auto simp add: shouldRehashPassword_def try_catch_def and_then_def)

lemma shouldRehashPassword_cases:
  "shouldRehashPassword b h =
     Inr ((\<exists>e. bcrypt_getRounds b h = Inl e)
          \<or> (\<exists>rounds. bcrypt_getRounds b h = Inr rounds \<and> number_lt rounds (Num 12)))"
  by (cases "bcrypt_getRounds b h")
     (simp_all add: shouldRehashPassword_def try_catch_def and_then_def SALT_ROUNDS_def)

lemma getRounds_malformed:
  "bcryptjs_getRounds approx (js ''not-a-real-digest'') = Inr NaN"
  "bcryptjs_getRounds approx [] = Inr NaN"
  by (simp_all add: bcryptjs_getRounds_def parseInt10_def array_at_def js_def
        StrWhiteSpaceChar_def digit_class_def)

lemma getRounds_cost_10:
  "bcryptjs_getRounds approx (js ''$2a$10$oldhash'') = Inr (Num 10)"
  by (simp add: bcryptjs_getRounds_def parseInt10_def array_at_def js_def
        StrWhiteSpaceChar_def digit_class_def digits_value_def)

text \<open>
  C7: with the library's own \<open>getRounds\<close>, which gives \<open>NaN\<close> on a digest without a
  cost field instead of throwing, \<open>shouldRehashPassword\<close> answers false on the malformed
  digest \<open>not-a-real-digest\<close> and on the empty digest, where extraction fails and the
  answer should be true; on a digest of cost 10 it answers true.
\<close>

theorem shouldRehashPassword_malformed_false:
  "shouldRehashPassword (b \<lparr> bcrypt_getRounds := bcryptjs_getRounds approx \<rparr>)
     (js ''not-a-real-digest'') = Inr False
   \<and> shouldRehashPassword (b \<lparr> bcrypt_getRounds := bcryptjs_getRounds approx \<rparr>) []
       = Inr False
   \<and> shouldRehashPassword (b \<lparr> bcrypt_getRounds := bcryptjs_getRounds approx \<rparr>)
       (js ''$2a$10$oldhash'') = Inr True"
  by (simp add: shouldRehashPassword_def try_catch_def and_then_def SALT_ROUNDS_def
        getRounds_malformed getRounds_cost_10)

subsection \<open>Hashing, then verifying\<close>

text \<open>
  C8: for a plaintext of 8 to 72 code units on which \<open>bcrypt.hash\<close> does not throw,
  with a library whose \<open>compare\<close> accepts the digests of its \<open>hash\<close>, \<open>hashPassword\<close>
  returns a digest and \<open>verifyPassword\<close> of the plaintext and that digest returns true.
\<close>

theorem hash_verify_roundtrip:
  assumes "bcrypt_contract b"
      and "8 \<le> length p" and "length p \<le> 72"
      and "\<forall>error. bcrypt_hash b p 12 \<noteq> Inl error"
  shows "\<exists>digest. hashPassword b (JString p) = Inr digest
           \<and> verifyPassword b (JString p) (JString digest) = Inr True"
proof -
  obtain d where d: "bcrypt_hash b p 12 = Inr d"
    using assms(4) by (cases "bcrypt_hash b p 12") auto
  have ne: "p \<noteq> []" using assms(2) by auto
  have h: "hashPassword b (JString p) = Inr d"
    using d ne assms(2,3)
    by (simp add: hashPassword_def try_catch_def and_then_def SALT_ROUNDS_def str_length_def)
  have c: "d \<noteq> []" "bcrypt_compare b p d = Inr True"
    using assms(1) d unfolding bcrypt_contract_def by blast+
  have v: "verifyPassword b (JString p) (JString d) = Inr True"
    using c ne by (simp add: verifyPassword_def try_catch_def and_then_def)
  show ?thesis using h v by blast
qed

theorem hash_verify_roundtrip_witness:
  "hashPassword mock_bcrypt (JString (js ''Secret123!'')) = Inr (js ''$2a$12$Secret123!'')
   \<and> verifyPassword mock_bcrypt (JString (js ''Secret123!''))
        (JString (js ''$2a$12$Secret123!'')) = Inr True"
proof -
  have 1: "bcrypt_contract mock_bcrypt"
    by (auto simp add: bcrypt_contract_def mock_bcrypt_def js_def)
  have 2: "8 \<le> length (js ''Secret123!'')" "length (js ''Secret123!'') \<le> 72"
    by (simp_all add: js_def)
  have 3: "\<forall>error. bcrypt_hash mock_bcrypt (js ''Secret123!'') 12 \<noteq> Inl error"
    by (simp add: mock_bcrypt_def)
  have 4: "hashPassword mock_bcrypt (JString (js ''Secret123!''))
             = Inr (js ''$2a$12$Secret123!'')"
    by (simp add: hashPassword_def try_catch_def and_then_def mock_bcrypt_def
          str_length_def js_def)
  show ?thesis using hash_verify_roundtrip[OF 1 2 3] 4 by auto
qed

subsection \<open>\<open>generateSecurePassword\<close>\<close>

lemma round53_exact: "p < 2 ^ 53 \<Longrightarrow> round53 p = p"
proof -
  assume "p < 2 ^ 53"
  then have "floorlog 2 p \<le> 53" by (simp add: floorlog_le_iff)
  then show ?thesis by (simp add: round53_def)
qed

text \<open>Rounding moves a number up by at most half a unit in the last place.\<close>

lemma round53_upper:
  assumes "0 < p"
  shows "round53 p \<le> p + 2 ^ (floorlog 2 p - 54)"
proof (cases "floorlog 2 p - 53 = 0")
  case True
  then show ?thesis by (simp add: round53_def)
next
  case False
  define s where "s = floorlog 2 p - 53"
  have s: "0 < s" using False by (simp add: s_def)
  define q where "q = p div 2 ^ s"
  define r where "r = p mod 2 ^ s"
  have p: "p = q * 2 ^ s + r" unfolding q_def r_def by (rule div_mult_mod_eq[symmetric])
  have half: "(2::nat) ^ s = 2 * 2 ^ (s - 1)" using s by (cases s) simp_all
  have e: "floorlog 2 p - 54 = s - 1" by (simp add: s_def)
  have r53: "round53 p =
      (if r > 2 ^ (s - 1) \<or> (r = 2 ^ (s - 1) \<and> odd q) then (q + 1) * 2 ^ s else q * 2 ^ s)"
    using s by (simp add: round53_def s_def[symmetric] q_def r_def Let_def)
  show ?thesis
  proof (cases "r > 2 ^ (s - 1) \<or> (r = 2 ^ (s - 1) \<and> odd q)")
    case True
    then have "2 ^ (s - 1) \<le> r" by auto
    moreover have "round53 p = q * 2 ^ s + 2 ^ s" using True r53 by (simp add: algebra_simps)
    ultimately show ?thesis using p half e by simp
  next
    case False
    then have "round53 p = q * 2 ^ s" using r53 by simp
    then show ?thesis using p by simp
  qed
qed

text \<open>The rounding argument: the product of a double below 1 and 70 stays below 70
  after rounding, because the largest such double is \<open>1 - 2^-53\<close> and half a unit in
  the last place of the product is at most \<open>64 / 2^k\<close>, less than \<open>70 / 2^53\<close>.\<close>

lemma index_bound:
  assumes "unit_double d"
  shows "Math_floor (double_times d 70) < 70"
proof -
  obtain m k where d: "d = (m, k)" by (cases d)
  have m: "m < 2 ^ 53" and k: "53 \<le> k" using assms by (simp_all add: unit_double_def d)
  have n: "round53 (m * 70) < 70 * 2 ^ 53"
  proof (cases "m = 0")
    case True
    then show ?thesis by (simp add: round53_exact)
  next
    case False
    then have pos: "0 < m * 70" by simp
    have "m * 70 < 2 ^ 60" using m by simp
    then have "floorlog 2 (m * 70) \<le> 60" by (simp add: floorlog_le_iff)
    then have "floorlog 2 (m * 70) - 54 \<le> 6" by simp
    then have "(2::nat) ^ (floorlog 2 (m * 70) - 54) \<le> 2 ^ 6"
      by (intro power_increasing) simp_all
    then have "round53 (m * 70) \<le> m * 70 + 64"
      using round53_upper[OF pos] by simp
    then show ?thesis using m by simp
  qed
  have "(2::nat) ^ 53 \<le> 2 ^ k" using k by (intro power_increasing) simp_all
  then have "round53 (m * 70) < 70 * 2 ^ k" using n
    by (meson less_le_trans mult_le_mono2)
  then show ?thesis
    by (simp add: Math_floor_def double_times_def d less_mult_imp_div_less)
qed

lemma charset_length: "length charset = 70"
  by (simp add: charset_def js_def)

lemma charset_at_in:
  assumes "unit_double d"
  shows "\<exists>c \<in> set charset. charset_at (Math_floor (double_times d (length charset))) = [c]"
proof -
  define k where "k = Math_floor (double_times d 70)"
  have "k < length charset" using index_bound[OF assms] by (simp add: k_def charset_length)
  then have "charset ! k \<in> set charset" "charset_at k = [charset ! k]"
    by (simp_all add: charset_at_def)
  then show ?thesis by (auto simp add: k_def charset_length)
qed

lemma generate_loop_returns:
  assumes rnd: "\<And>j. unit_double (random j)" and n: "n < 2 ^ 53"
  shows "length pw + nat (n - int i) \<le> max_length \<Longrightarrow>
         \<exists>s. generate_loop max_length random (Num n) i calls pw = Inr s
            \<and> length s = length pw + nat (n - int i)
            \<and> set s \<subseteq> set pw \<union> set charset"
  using rnd
proof (induction max_length random "Num n" i calls pw rule: generate_loop.induct)
  case (1 max_length random i calls password)
  show ?case
  proof (cases "int i < n")
    case False
    then show ?thesis by simp
  next
    case True
    obtain c where c: "c \<in> set charset"
        "charset_at (Math_floor (double_times (random calls) (length charset))) = [c]"
      using charset_at_in "1.prems"(2) by blast
    have lt: "number_lt (Num (int i)) (Num n)" using True by simp
    have fits: "\<not> max_length < length (password @ [c])" using "1.prems"(1) True by simp
    have "i + 1 < 2 ^ 53" using True n by simp
    then have inc: "round53 (i + 1) = Suc i" "round53 (Suc i) = Suc i"
      using round53_exact[of "i + 1"] by simp_all
    have step: "generate_loop max_length random (Num n) i calls password =
        generate_loop max_length random (Num n) (Suc i) (Suc calls) (password @ [c])"
      using lt c(2) fits inc by (subst generate_loop.simps) (simp add: Let_def)
    have pre: "length (password @ [c]) + nat (n - int (Suc i)) \<le> max_length"
      using "1.prems"(1) True by simp
    have "\<exists>s. generate_loop max_length random (Num n) (round53 (i + 1)) (Suc calls)
                 (password @ charset_at
                    (Math_floor (double_times (random calls) (length charset)))) = Inr s
            \<and> length s =
                length (password @ charset_at
                    (Math_floor (double_times (random calls) (length charset))))
                + nat (n - int (round53 (i + 1)))
            \<and> set s \<subseteq>
                set (password @ charset_at
                    (Math_floor (double_times (random calls) (length charset))))
                \<union> set charset"
      using fits pre "1.prems"(2)
      by (intro "1.hyps"[OF lt refl refl]) (simp_all add: c(2) inc)
    then obtain s where s:
        "generate_loop max_length random (Num n) (Suc i) (Suc calls) (password @ [c]) = Inr s"
        "length s = length (password @ [c]) + nat (n - int (Suc i))"
        "set s \<subseteq> set (password @ [c]) \<union> set charset"
      by (auto simp add: c(2) inc)
    have "length (password @ [c]) + nat (n - int (Suc i)) = length password + nat (n - int i)"
      using True by simp
    moreover have "set (password @ [c]) \<union> set charset = set password \<union> set charset"
      using c(1) by auto
    ultimately show ?thesis using s step by auto
  qed
qed

lemma generate_loop_throws:
  assumes rnd: "\<And>j. unit_double (random j)" and m: "max_length < 2 ^ 53"
  shows "i \<le> length pw \<Longrightarrow> length pw \<le> max_length \<Longrightarrow> int max_length < n \<Longrightarrow>
         generate_loop max_length random (Num n) i calls pw
           = Inl (RangeError (js ''Invalid string length''))"
  using rnd m
proof (induction max_length random "Num n" i calls pw rule: generate_loop.induct)
  case (1 max_length random i calls password)
  obtain c where c: "c \<in> set charset"
      "charset_at (Math_floor (double_times (random calls) (length charset))) = [c]"
    using charset_at_in "1.prems"(4) by blast
  have lt: "number_lt (Num (int i)) (Num n)" using "1.prems"(1,2,3) by simp
  show ?case
  proof (cases "max_length < length (password @ [c])")
    case True
    then show ?thesis using lt c(2) by (subst generate_loop.simps) (simp add: Let_def)
  next
    case False
    have "i + 1 < 2 ^ 53" using False "1.prems"(1,5) by simp
    then have inc: "round53 (i + 1) = Suc i" "round53 (Suc i) = Suc i"
      using round53_exact[of "i + 1"] by simp_all
    have step: "generate_loop max_length random (Num n) i calls password =
        generate_loop max_length random (Num n) (Suc i) (Suc calls) (password @ [c])"
      using lt c(2) False inc by (subst generate_loop.simps) (simp add: Let_def)
    have "generate_loop max_length random (Num n) (round53 (i + 1)) (Suc calls)
            (password @ charset_at
               (Math_floor (double_times (random calls) (length charset))))
          = Inl (RangeError (js ''Invalid string length''))"
      using False "1.prems"
      by (intro "1.hyps"[OF lt refl refl]) (simp_all add: c(2) inc)
    then show ?thesis using step by (simp add: c(2) inc)
  qed
qed

lemma floorlog_eqI:
  assumes "2 ^ w \<le> p" "p < 2 ^ Suc w"
  shows "floorlog 2 p = Suc w"
proof -
  have "floorlog 2 p \<le> Suc w" using assms(2) by (simp add: floorlog_le_iff)
  moreover have "Suc w \<le> floorlog 2 p" using assms(1) by (intro floorlog_ge_SucI) simp_all
  ultimately show ?thesis by simp
qed

text \<open>The doubles differ from the reals here: the exact product of 70 and the double
  nearest to one seventh is just below 10, and the rounded product is 10.\<close>

lemma one_seventh_index: "Math_floor (double_times one_seventh 70) = 10"
proof -
  have f: "floorlog 2 360287970189639660 = Suc 58" by (rule floorlog_eqI) simp_all
  have "round53 360287970189639660 = 360287970189639680"
    by (simp add: round53_def f Let_def)
  then show ?thesis by (simp add: Math_floor_def double_times_def one_seventh_def)
qed

text \<open>
  C10, as the code has it: when every result of \<open>Math.random\<close> is a double in \<open>[0, 1)\<close>
  and strings hold at most \<open>max_length \<le> 2^53 - 1\<close> code units,
  \<open>generateSecurePassword(n)\<close> for a natural number \<open>n \<le> max_length\<close> returns a string
  of exactly \<open>n\<close> code units, all from the character set, and for \<open>n > max_length\<close> it
  throws a \<open>RangeError\<close>; the set has 70 distinct characters, each an uppercase
  letter, a lowercase letter, a digit or one of \<open>!@#$%^&*\<close>; without an argument the
  result has 16 code units, and for \<open>0\<close> it is the empty string.
\<close>

theorem generateSecurePassword_length_charset:
  assumes "\<forall>j. unit_double (random j)" and "max_length \<le> 2 ^ 53 - 1"
  shows "(n \<le> max_length \<longrightarrow>
            (\<exists>s. generateSecurePassword max_length random (Some (Num (int n))) = Inr s
               \<and> length s = n \<and> set s \<subseteq> set charset))
       \<and> (max_length < n \<longrightarrow>
            generateSecurePassword max_length random (Some (Num (int n)))
              = Inl (RangeError (js ''Invalid string length'')))
       \<and> length charset = 70 \<and> distinct charset
       \<and> (\<forall>c \<in> set charset. upper_class c \<or> lower_class c \<or> digit_class c
                              \<or> c \<in> set (js ''!@#$%^&*''))
       \<and> (16 \<le> max_length \<longrightarrow>
            (\<exists>s. generateSecurePassword max_length random None = Inr s \<and> length s = 16))
       \<and> generateSecurePassword max_length random (Some (Num 0)) = Inr []"
proof -
  have r: "\<And>j. unit_double (random j)" using assms(1) by blast
  have m: "max_length < 2 ^ 53" using assms(2) by simp
  have a: "\<exists>s. generateSecurePassword max_length random (Some (Num (int n))) = Inr s
               \<and> length s = n \<and> set s \<subseteq> set charset" if le: "n \<le> max_length"
  proof -
    have "int n < 2 ^ 53" using le m by simp
    then show ?thesis
      using generate_loop_returns
              [where random=random and n="int n" and i=0 and pw="[]"
                 and max_length=max_length and calls=0] r le
      by (simp add: generateSecurePassword_def)
  qed
  have b: "generateSecurePassword max_length random (Some (Num (int n)))
             = Inl (RangeError (js ''Invalid string length''))" if gt: "max_length < n"
    using generate_loop_throws
            [where random=random and n="int n" and i=0 and pw="[]"
               and max_length=max_length and calls=0] r m gt
    by (simp add: generateSecurePassword_def)
  have c: "distinct charset" by (simp add: charset_def js_def)
  have d: "\<forall>c \<in> set charset. upper_class c \<or> lower_class c \<or> digit_class c
                               \<or> c \<in> set (js ''!@#$%^&*'')"
    by (simp add: charset_def js_def upper_class_def lower_class_def digit_class_def)
  have e: "\<exists>s. generateSecurePassword max_length random None = Inr s \<and> length s = 16"
    if le: "16 \<le> max_length"
    using generate_loop_returns
            [where random=random and n=16 and i=0 and pw="[]"
               and max_length=max_length and calls=0] r le
    by (auto simp add: generateSecurePassword_def)
  have f: "generateSecurePassword max_length random (Some (Num 0)) = Inr []"
    by (simp add: generateSecurePassword_def)
  show ?thesis using a b c d e f charset_length by blast
qed

theorem generateSecurePassword_length_charset_witness:
  "generateSecurePassword (2 ^ 53 - 1) sample_random (Some (Num 1)) = Inr (js ''K'')
   \<and> (\<exists>s. generateSecurePassword (2 ^ 53 - 1) sample_random (Some (Num (int 24))) = Inr s
        \<and> length s = 24 \<and> set s \<subseteq> set charset)
   \<and> (\<exists>s. generateSecurePassword (2 ^ 53 - 1) sample_random None = Inr s \<and> length s = 16)"
proof -
  have r: "\<forall>j. unit_double (sample_random j)"
    by (simp add: sample_random_def one_seventh_def unit_double_def)
  have m: "(2::nat) ^ 53 - 1 \<le> 2 ^ 53 - 1" by simp
  have i: "round53 (Suc 0) = Suc 0" using round53_exact[of "Suc 0"] by simp
  have c: "charset_at 10 = js ''K''" by (simp add: charset_at_def charset_def js_def)
  have v: "generateSecurePassword (2 ^ 53 - 1) sample_random (Some (Num 1)) = Inr (js ''K'')"
    by (simp add: generateSecurePassword_def sample_random_def one_seventh_index
          charset_length c i js_def)
  have n: "(24::nat) \<le> 2 ^ 53 - 1" "(16::nat) \<le> 2 ^ 53 - 1" by simp_all
  show ?thesis
    using generateSecurePassword_length_charset[OF r m, of 24] v n by blast
qed

text \<open>
  C10, as it is claimed (a string of exactly \<open>n\<close> characters for every natural
  number \<open>n\<close>), fails at \<open>n = 2^53\<close> even with the largest strings ECMAScript allows:
  no string is returned, the concatenation throws.
\<close>

theorem generateSecurePassword_too_long_counterexample:
  "generateSecurePassword (2 ^ 53 - 1) sample_random (Some (Num (2 ^ 53)))
     = Inl (RangeError (js ''Invalid string length''))"
proof -
  have r: "\<And>j. unit_double (sample_random j)"
    by (simp add: sample_random_def one_seventh_def unit_double_def)
  show ?thesis
    using generate_loop_throws
            [where random=sample_random and n="2 ^ 53" and i=0 and pw="[]"
               and max_length="2 ^ 53 - 1" and calls=0] r
    by (simp add: generateSecurePassword_def)
qed

section \<open>Properties of the type guard\<close>

text \<open>
  C9, as the code has it: \<open>isAuthenticated\<close> never throws, and it returns true exactly
  when the session is neither \<open>null\<close> nor \<open>undefined\<close> and its \<open>user\<close> property is not
  \<open>undefined\<close>. A session whose \<open>user\<close> is \<open>undefined\<close> or missing is unauthenticated.
\<close>

theorem isAuthenticated_iff:
  "isAuthenticated session =
     Inr (present session \<and> get_optional session ''user'' \<noteq> JUndefined)"
  by (cases session)
     (simp_all add: isAuthenticated_def and_also_def and_then_def get_optional_def present_def)

theorem isAuthenticated_iff_witness:
  "isAuthenticated JNull = Inr False
   \<and> isAuthenticated JUndefined = Inr False
   \<and> isAuthenticated (JObject [(''user'', JUndefined)]) = Inr False
   \<and> isAuthenticated (JObject [(''user'', tenant_row), (''expires'', JString (js ''2026''))])
       = Inr True"
  using isAuthenticated_iff[of JNull] isAuthenticated_iff[of JUndefined]
        isAuthenticated_iff[of "JObject [(''user'', JUndefined)]"]
        isAuthenticated_iff
          [of "JObject [(''user'', tenant_row), (''expires'', JString (js ''2026''))]"]
  by (simp add: present_def get_optional_def tenant_row_def)

text \<open>
  C9, as it is claimed (true only if the identity of the session is present), fails on
  a session whose \<open>user\<close> is \<open>null\<close>: the identity is absent and the guard answers true.
\<close>

theorem isAuthenticated_null_user_counterexample:
  "isAuthenticated (JObject [(''user'', JNull)]) = Inr True
   \<and> \<not> present (get_optional (JObject [(''user'', JNull)]) ''user'')"
  by (simp add: isAuthenticated_def and_also_def and_then_def get_optional_def present_def)

section \<open>Properties of \<open>authorize\<close>\<close>

lemma get_property_truthy: "truthy v \<Longrightarrow> get_property v k = Inr (get_optional v k)"
  by (cases v) (simp_all add: get_optional_def)

lemma get_property_optional_truthy:
  "truthy (get_optional v k) \<Longrightarrow> get_property v j = Inr (get_optional v j)"
  by (cases v) (simp_all add: get_optional_def)

lemma io_bind_lift_Inr [simp]: "io_bind (lift (Inr v)) f = f v"
  by (simp add: io_bind_def lift_def)

lemma io_bind_lift_Inl [simp]: "io_bind (lift (Inl e)) f = ([], Inl e)"
  by (simp add: io_bind_def lift_def)

lemma io_bind_emit [simp]: "io_bind (emit ev) f = (ev # fst (f ()), snd (f ()))"
  by (simp add: io_bind_def emit_def)

lemma io_bind_return [simp]: "io_bind (io_return v) f = f v"
  by (simp add: io_bind_def io_return_def)

lemma io_bind_pair_Inr: "io_bind (ev, Inr v) f = (ev @ fst (f v), snd (f v))"
  by (simp add: io_bind_def)

lemma snd_io_bind:
  "snd (io_bind m f) = (case snd m of Inl e \<Rightarrow> Inl e | Inr v \<Rightarrow> snd (f v))"
  by (simp add: io_bind_def split: sum.splits)

lemma returned_user_truthy:
  "truthy user \<Longrightarrow> returned_user user = ([], Inr (identity_of user))"
  by (simp add: returned_user_def get_property_truthy identity_of_def public_fields_def
        io_return_def)

lemma identity_not_null: "identity_of user \<noteq> JNull"
  by (simp add: identity_of_def)

subsection \<open>The rehash step\<close>

lemma rehash_returns: "snd (rehash rt credentials user) = Inr ()"
  by (simp add: rehash_def io_try_catch_def emit_def split: sum.splits)

lemma rehash_events:
  "set (fst (rehash rt c user)) \<subseteq>
     range (\<lambda>(i, d). Update_Password i d) \<union> range Error_RehashFailed"
  by (auto simp add: rehash_def io_try_catch_def io_bind_def lift_def emit_def
        split: sum.splits)

lemma rehash_failure_logged:
  assumes "truthy (get_optional c ''password'')" "truthy user" "rehash_fails rt c user error"
  shows "Error_RehashFailed error \<in> set (fst (rehash rt c user))"
  using assms(3)
  by (auto simp add: rehash_def rehash_fails_def io_try_catch_def emit_def io_bind_def lift_def
        get_property_optional_truthy[OF assms(1)] get_property_truthy[OF assms(2)]
        split: sum.splits)

subsection \<open>The body of the outer \<open>try\<close>\<close>

lemma authorize_catch:
  "snd (authorize rt credentials) =
     (case snd (authorize_body rt credentials) of Inl e \<Rightarrow> Inr JNull | Inr v \<Rightarrow> Inr v)"
  by (simp add: authorize_def io_try_catch_def io_return_def split: sum.splits)

lemma body_missing:
  "missing_credentials c \<Longrightarrow> snd (authorize_body rt c) = Inr JNull"
  by (simp add: authorize_body_def missing_credentials_def io_return_def)

lemma body_lookup_throws:
  assumes "\<not> missing_credentials c" "found_user rt c = Inl e"
  shows "snd (authorize_body rt c) = Inl e"
proof -
  have t: "truthy (get_optional c ''email'')" "truthy (get_optional c ''password'')"
    using assms(1) by (simp_all add: missing_credentials_def)
  show ?thesis
    using t assms(2)
    by (simp add: authorize_body_def found_user_def and_then_def
          get_property_optional_truthy[OF t(1)] split: sum.splits)
qed

lemma body_found:
  assumes "\<not> missing_credentials c" "found_user rt c = Inr user"
  shows "snd (authorize_body rt c) =
     (if \<not> truthy user then Inr JNull
      else if \<not> truthy (get_optional user ''password'') then Inr JNull
      else (case verified rt c user of
              Inl e \<Rightarrow> Inl e
            | Inr isPasswordValid \<Rightarrow>
                if isPasswordValid then Inr (identity_of user) else Inr JNull))"
proof -
  have t: "truthy (get_optional c ''email'')" "truthy (get_optional c ''password'')"
    using assms(1) by (simp_all add: missing_credentials_def)
  obtain n where n: "call_toLowerCase rt (get_optional c ''email'') = Inr n"
      "user_findUnique rt n = Inr user"
    using assms(2) by (auto simp add: found_user_def and_then_def split: sum.splits)
  obtain should where s:
      "shouldRehashPassword (bcrypt rt) (string_of (get_optional user ''password''))
         = Inr should"
    using shouldRehashPassword_returns by blast
  show ?thesis
  proof (cases "truthy user")
    case False
    then show ?thesis using t n
      by (simp add: authorize_body_def get_property_optional_truthy[OF t(1)] io_return_def)
  next
    case True
    note tu = this
    show ?thesis
    proof (cases "truthy (get_optional user ''password'')")
      case False
      then show ?thesis using t n tu
        by (simp add: authorize_body_def get_property_optional_truthy[OF t(1)]
              get_property_truthy[OF tu] io_return_def)
    next
      case True
      note tp = this
      show ?thesis
      proof (cases "verified rt c user")
        case (Inl e)
        then show ?thesis using t n tu tp
          by (simp add: authorize_body_def get_property_optional_truthy[OF t(1)]
              get_property_truthy[OF tu] verified_def)
      next
        case (Inr ok)
        then show ?thesis using t n tu tp s
          by (cases should)
             (simp_all add: authorize_body_def get_property_optional_truthy[OF t(1)]
              get_property_truthy[OF tu] verified_def io_return_def snd_io_bind
              rehash_returns returned_user_truthy)
      qed
    qed
  qed
qed

lemma body_rehash:
  assumes "\<not> missing_credentials c" "found_user rt c = Inr user" "truthy user"
    "verified rt c user = Inr True"
    "shouldRehashPassword (bcrypt rt) (string_of (get_optional user ''password'')) = Inr True"
  shows "authorize_body rt c =
           (Log_Rehashing (get_optional c ''email'') # fst (rehash rt c user),
            Inr (identity_of user))"
proof -
  have t: "truthy (get_optional c ''email'')" "truthy (get_optional c ''password'')"
    using assms(1) by (simp_all add: missing_credentials_def)
  obtain n where n: "call_toLowerCase rt (get_optional c ''email'') = Inr n"
      "user_findUnique rt n = Inr user"
    using assms(2) by (auto simp add: found_user_def and_then_def split: sum.splits)
  have tp: "truthy (get_optional user ''password'')"
    using assms(4) verifyPassword_Inr_truthy unfolding verified_def by blast
  have r: "snd (rehash rt c user) = Inr ()" by (rule rehash_returns)
  show ?thesis
    using t n tp assms(3,4,5) r
    by (simp add: authorize_body_def get_property_optional_truthy[OF t(1)]
          get_property_truthy[OF assms(3)] verified_def io_bind_pair_Inr
          returned_user_truthy)
qed

subsection \<open>The two outcomes\<close>

lemma authorize_fails:
  assumes "login_fails rt c"
  shows "snd (authorize rt c) = Inr JNull"
proof (cases "missing_credentials c")
  case True
  then show ?thesis by (simp add: authorize_catch body_missing)
next
  case False
  note nm = this
  show ?thesis
  proof (cases "found_user rt c")
    case (Inl e)
    then show ?thesis using body_lookup_throws[OF nm Inl] by (simp add: authorize_catch)
  next
    case (Inr user)
    then show ?thesis
      using assms nm body_found[OF nm Inr]
      by (auto simp add: authorize_catch login_fails_def split: sum.splits)
  qed
qed

lemma authorize_succeeds:
  assumes "\<not> login_fails rt c"
  shows "\<exists>user. found_user rt c = Inr user \<and> truthy user
           \<and> snd (authorize rt c) = Inr (identity_of user)"
proof -
  have nm: "\<not> missing_credentials c" using assms by (simp add: login_fails_def)
  obtain user where u: "found_user rt c = Inr user"
    using assms by (cases "found_user rt c") (auto simp add: login_fails_def)
  have "truthy user \<and> snd (authorize rt c) = Inr (identity_of user)"
    using assms nm u body_found[OF nm u]
    by (auto simp add: authorize_catch login_fails_def split: sum.splits)
  then show ?thesis using u by blast
qed

lemma mock_login_outcome:
  "authorize mock_runtime (login ''Tenant@Test.com'' ''Secret123!'') =
     ([Log_Rehashing (JString (js ''Tenant@Test.com'')),
       Update_Password (JString (js ''1'')) (js ''$2a$12$Secret123!''),
       Error_RehashFailed (Error (js ''Database unavailable''))],
      Inr (JObject
        [(''id'', JString (js ''1'')),
         (''email'', JString (js ''tenant@test.com'')),
         (''name'', JString (js ''Test Tenant'')),
         (''role'', JString (js ''TENANT'')),
         (''emailVerified'', JNull),
         (''image'', JNull)]))"
  by code_simp

text \<open>
  C1: \<open>authorize\<close> never throws, and it returns \<open>null\<close> in every failure mode: email or
  password missing, the lookup throwing, no user found, a user without a stored
  password, the verification throwing, a wrong password; and whenever anything at all
  is thrown inside its \<open>try\<close> block.
\<close>

theorem authorize_failure_is_null:
  "(\<exists>v. snd (authorize rt c) = Inr v)
   \<and> (login_fails rt c \<longrightarrow> snd (authorize rt c) = Inr JNull)
   \<and> ((\<exists>error. snd (authorize_body rt c) = Inl error)
        \<longrightarrow> snd (authorize rt c) = Inr JNull)"
proof -
  have 1: "\<exists>v. snd (authorize rt c) = Inr v"
    by (cases "snd (authorize_body rt c)") (simp_all add: authorize_catch)
  have 3: "(\<exists>error. snd (authorize_body rt c) = Inl error)
             \<longrightarrow> snd (authorize rt c) = Inr JNull"
    by (auto simp add: authorize_catch)
  show ?thesis using 1 3 authorize_fails by blast
qed

theorem authorize_failure_is_null_witness:
  "snd (authorize mock_runtime (login ''Tenant@Test.com'' ''WrongPass1!'')) = Inr JNull
   \<and> snd (authorize failing_runtime (login ''Tenant@Test.com'' ''Secret123!'')) = Inr JNull"
proof -
  have 1: "login_fails mock_runtime (login ''Tenant@Test.com'' ''WrongPass1!'')"
    by code_simp
  have 2: "login_fails failing_runtime (login ''Tenant@Test.com'' ''Secret123!'')"
    by code_simp
  show ?thesis
    using authorize_failure_is_null[of mock_runtime "login ''Tenant@Test.com'' ''WrongPass1!''"] 1
          authorize_failure_is_null[of failing_runtime "login ''Tenant@Test.com'' ''Secret123!''"] 2
    by blast
qed

text \<open>
  C2: a value other than \<open>null\<close> returned by \<open>authorize\<close> is an object with exactly the
  properties \<open>id\<close>, \<open>email\<close>, \<open>name\<close>, \<open>role\<close>, \<open>emailVerified\<close> and \<open>image\<close>, each with the
  value it has in the user that the lookup found; it has no \<open>password\<close> property.
\<close>

theorem authorize_returns_public_fields:
  assumes "snd (authorize rt c) = Inr v" and "v \<noteq> JNull"
  shows "\<exists>user. found_user rt c = Inr user
           \<and> v = JObject
                 [(''id'', get_optional user ''id''),
                  (''email'', get_optional user ''email''),
                  (''name'', get_optional user ''name''),
                  (''role'', get_optional user ''role''),
                  (''emailVerified'', get_optional user ''emailVerified''),
                  (''image'', get_optional user ''image'')]
           \<and> get_optional v ''password'' = JUndefined"
proof -
  have "\<not> login_fails rt c" using assms authorize_fails by fastforce
  then obtain user where u: "found_user rt c = Inr user"
      "snd (authorize rt c) = Inr (identity_of user)"
    using authorize_succeeds by blast
  have v: "v = identity_of user" using u(2) assms(1) by simp
  have "get_optional (identity_of user) ''password'' = JUndefined"
    by (simp add: identity_of_def public_fields_def get_optional_def)
  then show ?thesis using u(1) v by (auto simp add: identity_of_def public_fields_def)
qed

theorem authorize_returns_public_fields_witness:
  "\<exists>user. found_user mock_runtime (login ''Tenant@Test.com'' ''Secret123!'') = Inr user
     \<and> snd (authorize mock_runtime (login ''Tenant@Test.com'' ''Secret123!'')) =
         Inr (JObject
           [(''id'', get_optional user ''id''),
            (''email'', get_optional user ''email''),
            (''name'', get_optional user ''name''),
            (''role'', get_optional user ''role''),
            (''emailVerified'', get_optional user ''emailVerified''),
            (''image'', get_optional user ''image'')])"
proof -
  let ?v = "JObject
        [(''id'', JString (js ''1'')),
         (''email'', JString (js ''tenant@test.com'')),
         (''name'', JString (js ''Test Tenant'')),
         (''role'', JString (js ''TENANT'')),
         (''emailVerified'', JNull),
         (''image'', JNull)]"
  have 1: "snd (authorize mock_runtime (login ''Tenant@Test.com'' ''Secret123!'')) = Inr ?v"
    by (simp add: mock_login_outcome)
  have 2: "?v \<noteq> JNull" by simp
  show ?thesis using authorize_returns_public_fields[OF 1 2] 1 by auto
qed

text \<open>
  C3: when the password verifies and \<open>shouldRehashPassword\<close> asks for a rehash, a rehash
  that fails (hashing the plaintext again throws, or persisting the new digest throws)
  leaves the outcome as it is: \<open>authorize\<close> returns the identity of the user, not
  \<open>null\<close>; the error is logged and does not reach the outer \<open>catch\<close>.
\<close>

theorem rehash_failure_swallowed:
  assumes "\<not> missing_credentials c"
      and "found_user rt c = Inr user" and "truthy user"
      and "verified rt c user = Inr True"
      and "shouldRehashPassword (bcrypt rt) (string_of (get_optional user ''password''))
             = Inr True"
      and "rehash_fails rt c user error"
  shows "snd (authorize rt c) = Inr (identity_of user)
       \<and> identity_of user \<noteq> JNull
       \<and> Error_RehashFailed error \<in> set (fst (authorize rt c))
       \<and> (\<forall>e. Error_Authentication e \<notin> set (fst (authorize rt c)))"
proof -
  have t: "truthy (get_optional c ''password'')"
    using assms(1) by (simp add: missing_credentials_def)
  have b: "authorize_body rt c =
           (Log_Rehashing (get_optional c ''email'') # fst (rehash rt c user),
            Inr (identity_of user))"
    by (rule body_rehash[OF assms(1-5)])
  have a: "authorize rt c = authorize_body rt c"
    by (simp add: authorize_def io_try_catch_def b)
  have l: "Error_RehashFailed error \<in> set (fst (rehash rt c user))"
    by (rule rehash_failure_logged[OF t assms(3,6)])
  have n: "Error_Authentication e \<notin> set (fst (rehash rt c user))" for e
    using rehash_events[of rt c user] by auto
  show ?thesis using a b l n by (simp add: identity_not_null)
qed

theorem rehash_failure_swallowed_witness:
  "snd (authorize mock_runtime (login ''Tenant@Test.com'' ''Secret123!''))
     = Inr (identity_of tenant_row)
   \<and> Error_RehashFailed (Error (js ''Database unavailable''))
        \<in> set (fst (authorize mock_runtime (login ''Tenant@Test.com'' ''Secret123!'')))"
proof -
  let ?c = "login ''Tenant@Test.com'' ''Secret123!''"
  have 1: "\<not> missing_credentials ?c" by code_simp
  have 2: "found_user mock_runtime ?c = Inr tenant_row" by code_simp
  have 3: "truthy tenant_row" by code_simp
  have 4: "verified mock_runtime ?c tenant_row = Inr True" by code_simp
  have 5: "shouldRehashPassword (bcrypt mock_runtime)
             (string_of (get_optional tenant_row ''password'')) = Inr True" by code_simp
  have 6: "rehash_fails mock_runtime ?c tenant_row (Error (js ''Database unavailable''))"
    by code_simp
  show ?thesis using rehash_failure_swallowed[OF 1 2 3 4 5 6] by blast
qed

end
